theory Spec2Isabelle
  imports Main "HOL-Library.Word"
begin

unbundle bit_operations_syntax

section \<open>Bytes, digests and addresses\<close>

type_synonym byte = "8 word"

text \<open>Go's \<^verbatim>\<open>common.Hash\<close> is \<^verbatim>\<open>[32]byte\<close> and \<^verbatim>\<open>common.Address\<close> is
  \<^verbatim>\<open>[20]byte\<close>: arrays of a fixed length.\<close>

typedef hash = "{bs :: byte list. length bs = 32}"
  by (rule exI [of _ "replicate 32 0"]) simp

typedef address = "{bs :: byte list. length bs = 20}"
  by (rule exI [of _ "replicate 20 0"]) simp

text \<open>\<^verbatim>\<open>Hash.Bytes()\<close>: the 32 bytes of the digest.\<close>

definition Bytes :: "hash \<Rightarrow> byte list" where
  "Bytes h = Rep_hash h"

text \<open>\<^verbatim>\<open>Address.Bytes()\<close>: the 20 bytes of the address.\<close>

definition AddressBytes :: "address \<Rightarrow> byte list" where
  "AddressBytes a = Rep_address a"

text \<open>\<^verbatim>\<open>common.BytesToHash\<close> (\<^verbatim>\<open>Hash.SetBytes\<close>): a longer input is cropped from the
  left, a shorter one is padded with zeros on the left.\<close>

definition BytesToHash :: "byte list \<Rightarrow> hash" where
  "BytesToHash b =
     (let b' = (if length b > 32 then drop (length b - 32) b else b)
      in Abs_hash (replicate (32 - length b') 0 @ b'))"

text \<open>\<^verbatim>\<open>common.Hash{}\<close>: the zero value.\<close>

definition zeroHash :: hash where
  "zeroHash = Abs_hash (replicate 32 0)"

section \<open>Hexadecimal strings\<close>

definition hextable :: string where
  "hextable = ''0123456789abcdef''"

text \<open>\<^verbatim>\<open>hex.EncodeToString\<close>: two lower-case digits per byte, high nibble first.\<close>

fun hex_EncodeToString :: "byte list \<Rightarrow> string" where
  "hex_EncodeToString [] = []"
| "hex_EncodeToString (v # vs) =
     hextable ! unat (drop_bit 4 v) # hextable ! unat (v AND 0x0f) # hex_EncodeToString vs"

text \<open>The reverse table of \<^verbatim>\<open>encoding/hex\<close>: the value of a digit of either case,
  nothing for any other character.\<close>

definition fromHexChar :: "char \<Rightarrow> byte option" where
  "fromHexChar c =
     (let n = (of_char c :: nat) in
      if 48 \<le> n \<and> n \<le> 57 then Some (of_nat (n - 48))
      else if 97 \<le> n \<and> n \<le> 102 then Some (of_nat (n - 97 + 10))
      else if 65 \<le> n \<and> n \<le> 70 then Some (of_nat (n - 65 + 10))
      else None)"

text \<open>\<^verbatim>\<open>common.Hex2Bytes\<close>: \<^verbatim>\<open>hex.DecodeString\<close> with the error dropped, so that the
  result is the bytes decoded before the first invalid digit (or before a trailing odd
  digit).\<close>

fun Hex2Bytes :: "string \<Rightarrow> byte list" where
  "Hex2Bytes (p # q # rest) =
     (case fromHexChar p of
        None \<Rightarrow> []
      | Some a \<Rightarrow>
          (case fromHexChar q of
             None \<Rightarrow> []
           | Some b \<Rightarrow> (push_bit 4 a OR b) # Hex2Bytes rest))"
| "Hex2Bytes _ = []"

definition has0xPrefix :: "string \<Rightarrow> bool" where
  "has0xPrefix s =
     (length s \<ge> 2 \<and> s ! 0 = CHR ''0'' \<and> (s ! 1 = CHR ''x'' \<or> s ! 1 = CHR ''X''))"

text \<open>\<^verbatim>\<open>common.FromHex\<close>: an optional \<^verbatim>\<open>0x\<close> prefix is removed and an odd number of
  digits gets a leading zero.\<close>

definition FromHex :: "string \<Rightarrow> byte list" where
  "FromHex s =
     (let s1 = (if has0xPrefix s then drop 2 s else s);
          s2 = (if length s1 mod 2 = 1 then CHR ''0'' # s1 else s1)
      in Hex2Bytes s2)"

text \<open>\<^verbatim>\<open>common.Bytes2Hex\<close>: the digits without a prefix.\<close>

definition Bytes2Hex :: "byte list \<Rightarrow> string" where
  "Bytes2Hex d = hex_EncodeToString d"

text \<open>\<^verbatim>\<open>Hash.Hex()\<close>: the digits after \<^verbatim>\<open>0x\<close>.\<close>

definition Hex :: "hash \<Rightarrow> string" where
  "Hex h = ''0x'' @ hex_EncodeToString (Bytes h)"

definition HexToHash :: "string \<Rightarrow> hash" where
  "HexToHash s = BytesToHash (FromHex s)"

section \<open>Errors\<close>

text \<open>Go's \<^verbatim>\<open>error\<close> values. \<^verbatim>\<open>ErrStateNotSynchronized\<close> is the package variable of
  \<^verbatim>\<open>db\<close>, \<^verbatim>\<open>ErrNoRows\<close> is \<^verbatim>\<open>sql.ErrNoRows\<close>, \<^verbatim>\<open>ErrorString\<close> is what
  \<^verbatim>\<open>errors.New\<close> and \<^verbatim>\<open>fmt.Errorf\<close> (without \<^verbatim>\<open>%w\<close>) build, and \<^verbatim>\<open>ExternalError\<close>
  stands for any error of the database driver or of the cryptographic library.\<close>

datatype error =
    ErrStateNotSynchronized
  | ErrNoRows
  | ErrorString string
  | ExternalError string

text \<open>The \<^verbatim>\<open>Error()\<close> method: the message, which is what \<^verbatim>\<open>%v\<close> prints.\<close>

fun Error :: "error \<Rightarrow> string" where
  "Error ErrStateNotSynchronized = ''state not synchronized''"
| "Error ErrNoRows = ''sql: no rows in result set''"
| "Error (ErrorString m) = m"
| "Error (ExternalError m) = m"

section \<open>The cryptographic primitives\<close>

text \<open>An ECDSA key pair as Go's \<^verbatim>\<open>crypto/ecdsa\<close> has it: the private key embeds the
  public key.\<close>

record ecdsa_PublicKey =
  X :: int
  Y :: int

record ecdsa_PrivateKey =
  PublicKey :: ecdsa_PublicKey
  D :: int

text \<open>The functions of \<^verbatim>\<open>go-ethereum/crypto\<close> the program calls. They are external to
  the repository and every definition below takes them as the parameter \<open>C\<close>:
  \<^verbatim>\<open>crypto.Keccak256Hash\<close>, \<^verbatim>\<open>crypto.Sign(digest, key)\<close>,
  \<^verbatim>\<open>crypto.SigToPub(digest, sig)\<close> and \<^verbatim>\<open>crypto.PubkeyToAddress\<close>.\<close>

record crypto =
  crypto_Keccak256Hash :: "byte list \<Rightarrow> hash"
  crypto_Sign :: "byte list \<Rightarrow> ecdsa_PrivateKey \<Rightarrow> error + byte list"
  crypto_SigToPub :: "byte list \<Rightarrow> byte list \<Rightarrow> error + ecdsa_PublicKey"
  crypto_PubkeyToAddress :: "ecdsa_PublicKey \<Rightarrow> address"

text \<open>\<^verbatim>\<open>crypto.Keccak256\<close>: the same digest as a byte slice.\<close>

definition crypto_Keccak256 :: "crypto \<Rightarrow> byte list \<Rightarrow> byte list" where
  "crypto_Keccak256 C data = Bytes (crypto_Keccak256Hash C data)"

section \<open>Solidity's packed encoding\<close>

text \<open>The type names \<^verbatim>\<open>HashToSign\<close> passes to \<^verbatim>\<open>solsha3.SoliditySHA3\<close>, and the
  dynamic types of the values it passes as \<^verbatim>\<open>interface{}\<close>: \<^verbatim>\<open>[]byte\<close>,
  \<^verbatim>\<open>common.Hash\<close>, \<^verbatim>\<open>uint64\<close>, the named type \<^verbatim>\<open>ArgUint64\<close> of package
  \<^verbatim>\<open>types\<close> (whose underlying type is \<^verbatim>\<open>uint64\<close>) and \<^verbatim>\<open>common.Address\<close>.\<close>

datatype soltype = Bytes32 | Uint64 | Address

datatype solvalue =
    VBytes "byte list"
  | VHash hash
  | VUint64 "64 word"
  | VArgUint64 "64 word"
  | VAddress address

text \<open>A \<^verbatim>\<open>uint64\<close> in big-endian order, as \<^verbatim>\<open>binary.BigEndian\<close> writes it.\<close>

definition be64 :: "64 word \<Rightarrow> byte list" where
  "be64 n = map (\<lambda>i. ucast (drop_bit (8 * i) n)) [7, 6, 5, 4, 3, 2, 1, 0]"

text \<open>\<^verbatim>\<open>solsha3.SoliditySHA3\<close> is an external library: the Keccak-256 digest of the
  values packed one after the other. A \<^verbatim>\<open>bytes32\<close> is its bytes and an
  \<^verbatim>\<open>address\<close> is its 20 bytes. For a \<^verbatim>\<open>uint64\<close> the library switches on the
  dynamic type of the value: a \<^verbatim>\<open>uint64\<close> is written as its 8 big-endian bytes, as
  Solidity's \<^verbatim>\<open>abi.encodePacked\<close> does, but a value of a named type such as
  \<^verbatim>\<open>ArgUint64\<close> matches no case of the switch and is written as 8 zero bytes,
  whatever its value. The program pairs no type with a value of another kind; the last
  equation gives such a pair no bytes.\<close>

fun pack :: "soltype \<Rightarrow> solvalue \<Rightarrow> byte list" where
  "pack Bytes32 (VBytes bs) = bs"
| "pack Bytes32 (VHash h) = Bytes h"
| "pack Uint64 (VUint64 n) = be64 n"
| "pack Uint64 (VArgUint64 n) = replicate 8 0"
| "pack Address (VAddress a) = AddressBytes a"
| "pack _ _ = []"

definition SoliditySHA3 :: "crypto \<Rightarrow> soltype list \<Rightarrow> solvalue list \<Rightarrow> byte list" where
  "SoliditySHA3 C types values = crypto_Keccak256 C (concat (map2 pack types values))"

section \<open>Sequences (package types)\<close>

record Batch =
  L2Data :: "byte list"
  ForcedGER :: hash
  ForcedTimestamp :: "64 word"
  Coinbase :: address
  ForcedBlockHashL1 :: hash

record SequenceBanana =
  Batches :: "Batch list"
  OldAccInputHash :: hash
  L1InfoRoot :: hash
  MaxSequenceTimestamp :: "64 word"

text \<open>\<^verbatim>\<open>types.OffChainData\<close>, with the fields \<^verbatim>\<open>db.go\<close> reads and writes.\<close>

record OffChainData =
  Key :: hash
  Value :: "byte list"
  BatchNum :: "64 word"

text \<open>The body of the loop of \<^verbatim>\<open>HashToSign\<close>: the next value of \<^verbatim>\<open>currentHash\<close>.
  The fields \<^verbatim>\<open>ForcedTimestamp\<close> and \<^verbatim>\<open>MaxSequenceTimestamp\<close> are declared
  \<^verbatim>\<open>ArgUint64\<close> and go into the values unconverted.\<close>

definition HashToSign_step :: "crypto \<Rightarrow> SequenceBanana \<Rightarrow> byte list \<Rightarrow> Batch \<Rightarrow> byte list" where
  "HashToSign_step C s currentHash b =
     (let types = [Bytes32, Bytes32, Bytes32, Uint64, Address, Bytes32];
          values =
            (if ForcedTimestamp b > 0 then
               [VBytes currentHash,
                VBytes (crypto_Keccak256 C (L2Data b)),
                VHash (ForcedGER b),
                VArgUint64 (ForcedTimestamp b),
                VAddress (Coinbase b),
                VHash (ForcedBlockHashL1 b)]
             else
               [VBytes currentHash,
                VBytes (crypto_Keccak256 C (L2Data b)),
                VHash (L1InfoRoot s),
                VArgUint64 (MaxSequenceTimestamp s),
                VAddress (Coinbase b),
                VHash zeroHash])
      in SoliditySHA3 C types values)"

text \<open>The loop \<^verbatim>\<open>for _, b := range s.Batches\<close>, with \<^verbatim>\<open>currentHash\<close> as the
  accumulator.\<close>

fun HashToSign_loop :: "crypto \<Rightarrow> SequenceBanana \<Rightarrow> byte list \<Rightarrow> Batch list \<Rightarrow> byte list" where
  "HashToSign_loop C s currentHash [] = currentHash"
| "HashToSign_loop C s currentHash (b # bs) =
     HashToSign_loop C s (HashToSign_step C s currentHash b) bs"

definition HashToSign :: "crypto \<Rightarrow> SequenceBanana \<Rightarrow> byte list" where
  "HashToSign C s = HashToSign_loop C s (Bytes (OldAccInputHash s)) (Batches s)"

text \<open>\<^verbatim>\<open>SequenceBanana.OffChainData\<close>: one item per batch, appended in order. The
  composite literal sets \<^verbatim>\<open>Key\<close> and \<^verbatim>\<open>Value\<close>; \<^verbatim>\<open>BatchNum\<close> keeps Go's zero
  value.\<close>

fun OffChainData_loop :: "crypto \<Rightarrow> OffChainData list \<Rightarrow> Batch list \<Rightarrow> OffChainData list" where
  "OffChainData_loop C od [] = od"
| "OffChainData_loop C od (b # bs) =
     OffChainData_loop C
       (od @ [\<lparr>Key = crypto_Keccak256Hash C (L2Data b), Value = L2Data b, BatchNum = 0\<rparr>]) bs"

definition SequenceBanana_OffChainData :: "crypto \<Rightarrow> SequenceBanana \<Rightarrow> OffChainData list" where
  "SequenceBanana_OffChainData C s = OffChainData_loop C [] (Batches s)"

section \<open>Signatures (package types)\<close>

text \<open>Modelled from the spec: the constant \<^verbatim>\<open>signatureLen\<close> of package \<^verbatim>\<open>types\<close> is
  not among the sources. The specification gives the signature encoding as 65 bytes
  \<open>(r, s, v)\<close>.\<close>

definition signatureLen :: nat where
  "signatureLen = 65"

text \<open>Byte slices that are written to live in a store of backing arrays: \<open>cells\<close> maps
  an address to the array there and \<open>lim\<close> is the next free address. A slice is the
  address of its array and spans all of it.\<close>

type_synonym addr = nat

record heap =
  cells :: "addr \<Rightarrow> byte list"
  lim :: addr

text \<open>\<^verbatim>\<open>make([]byte, n)\<close>: a fresh array of \<open>n\<close> zeros.\<close>

definition go_make :: "heap \<Rightarrow> nat \<Rightarrow> addr \<times> heap" where
  "go_make h n = (lim h, h\<lparr>cells := (cells h)(lim h := replicate n 0), lim := Suc (lim h)\<rparr>)"

text \<open>\<^verbatim>\<open>copy(dst, src)\<close>: overwrites the first \<open>min (len dst) (len src)\<close> elements of
  \<open>dst\<close>.\<close>

definition go_copy :: "heap \<Rightarrow> addr \<Rightarrow> addr \<Rightarrow> heap" where
  "go_copy h dst src =
     (let n = min (length (cells h dst)) (length (cells h src))
      in h\<lparr>cells := (cells h)(dst := take n (cells h src) @ drop n (cells h dst))\<rparr>)"

text \<open>\<^verbatim>\<open>a[i] -= v\<close> on the array at an address, for an index in range (byte
  arithmetic wraps).\<close>

definition go_sub_at :: "heap \<Rightarrow> addr \<Rightarrow> nat \<Rightarrow> byte \<Rightarrow> heap" where
  "go_sub_at h a i v = h\<lparr>cells := (cells h)(a := (cells h a)[i := cells h a ! i - v])\<rparr>"

record SignedSequenceBanana =
  Sequence :: SequenceBanana
  Signature :: addr

text \<open>\<^verbatim>\<open>SignedSequenceBanana.Signer\<close>: the result and the store after the call. The
  index 64 is in range of the fresh array, whose length is \<^verbatim>\<open>signatureLen\<close>.\<close>

definition Signer :: "crypto \<Rightarrow> heap \<Rightarrow> SignedSequenceBanana \<Rightarrow> (error + address) \<times> heap" where
  "Signer C h s =
     (if length (cells h (Signature s)) \<noteq> signatureLen then
        (Inl (ErrorString ''invalid signature''), h)
      else
        (let (sig, h1) = go_make h signatureLen;
             h2 = go_copy h1 sig (Signature s);
             h3 = go_sub_at h2 sig 64 27
         in (case crypto_SigToPub C (HashToSign C (Sequence s)) (cells h3 sig) of
               Inl err \<Rightarrow> (Inl err, h3)
             | Inr pubKey \<Rightarrow> (Inr (crypto_PubkeyToAddress C pubKey), h3))))"

text \<open>Modelled from the spec: the package function \<^verbatim>\<open>Sign(privateKey, data)\<close> of
  \<^verbatim>\<open>types\<close>, which \<^verbatim>\<open>SequenceBanana.Sign\<close> calls, is not among the sources. The
  specification gives the signature as 65 bytes \<open>(r, s, v)\<close> with \<open>v\<close> in \<open>{27, 28}\<close> on the
  wire and the recovery id \<open>v - 27\<close> internally: the signature of the ECDSA primitive
  with 27 added to its last byte. A primitive's signature too short to have a byte 64
  is the run-time error of the index expression.\<close>

definition Sign :: "crypto \<Rightarrow> ecdsa_PrivateKey \<Rightarrow> byte list \<Rightarrow> error + byte list" where
  "Sign C privateKey data =
     (case crypto_Sign C data privateKey of
        Inl err \<Rightarrow> Inl err
      | Inr sig \<Rightarrow>
          if 64 < length sig then Inr (sig[64 := sig ! 64 + 27])
          else Inl (ErrorString ''index out of range''))"

text \<open>\<^verbatim>\<open>SequenceBanana.Sign\<close>: what is signed is the accumulated input hash.\<close>

definition SequenceBanana_Sign ::
  "crypto \<Rightarrow> SequenceBanana \<Rightarrow> ecdsa_PrivateKey \<Rightarrow> error + byte list" where
  "SequenceBanana_Sign C s privateKey = (let hashToSign = HashToSign C s in Sign C privateKey hashToSign)"

section \<open>The store (package db)\<close>

record BatchKey =
  Number :: "64 word"
  Hash :: hash

text \<open>The two relations the functions below use, as lists of rows in the order the
  server scans them: \<^verbatim>\<open>offchain_data(key, value, batch_num)\<close> with primary key
  \<^verbatim>\<open>key\<close>, and \<^verbatim>\<open>unresolved_batches(num, hash)\<close> with primary key \<^verbatim>\<open>(num, hash)\<close>.\<close>

type_synonym offchain_row = "string \<times> string \<times> 64 word"
type_synonym unresolved_row = "64 word \<times> string"

record pgDB =
  offchain_data :: "offchain_row list"
  unresolved_batches :: "unresolved_row list"

text \<open>What the connection does during one call: for each operation of the driver, the
  error it returns, if any. \<^verbatim>\<open>ExecContext\<close> and \<^verbatim>\<open>StructScan\<close> are numbered by the
  row they handle, from 0.\<close>

record driver =
  beginErr :: "error option"
  execErr :: "nat \<Rightarrow> error option"
  rollbackErr :: "error option"
  commitErr :: "error option"
  inErr :: "error option"
  queryErr :: "error option"
  scanErr :: "nat \<Rightarrow> error option"

text \<open>The statements. \<^verbatim>\<open>INSERT ... ON CONFLICT (num, hash) DO NOTHING\<close>:\<close>

definition storeUnresolvedBatchesSQL :: "64 word \<Rightarrow> string \<Rightarrow> unresolved_row list \<Rightarrow> unresolved_row list" where
  "storeUnresolvedBatchesSQL num hash t = (if (num, hash) \<in> set t then t else t @ [(num, hash)])"


text \<open>\<^verbatim>\<open>DELETE FROM unresolved_batches WHERE num = $1 AND hash = $2\<close>:\<close>

definition deleteUnresolvedBatchKeysSQL :: "64 word \<Rightarrow> string \<Rightarrow> unresolved_row list \<Rightarrow> unresolved_row list" where
  "deleteUnresolvedBatchKeysSQL num hash t = filter (\<lambda>r. \<not> (fst r = num \<and> snd r = hash)) t"

text \<open>\<^verbatim>\<open>INSERT ... ON CONFLICT (key) DO UPDATE SET value = EXCLUDED.value,
  batch_num = EXCLUDED.batch_num\<close>:\<close>

fun storeOffChainDataSQL :: "string \<Rightarrow> string \<Rightarrow> 64 word \<Rightarrow> offchain_row list \<Rightarrow> offchain_row list" where
  "storeOffChainDataSQL key val batch_num [] = [(key, val, batch_num)]"
| "storeOffChainDataSQL key val batch_num (r # t) =
     (if fst r = key then (key, val, batch_num) # t
      else r # storeOffChainDataSQL key val batch_num t)"

text \<open>\<^verbatim>\<open>SELECT key, value, batch_num FROM offchain_data WHERE key = $1 LIMIT 1\<close>:\<close>

definition getOffchainDataSQL :: "string \<Rightarrow> offchain_row list \<Rightarrow> offchain_row list" where
  "getOffchainDataSQL key t = take 1 (filter (\<lambda>r. fst r = key) t)"

text \<open>\<^verbatim>\<open>SELECT key, value, batch_num FROM offchain_data WHERE key IN (?)\<close>:\<close>

definition listOffchainDataSQL :: "string list \<Rightarrow> offchain_row list \<Rightarrow> offchain_row list" where
  "listOffchainDataSQL keys t = filter (\<lambda>r. fst r \<in> set keys) t"

text \<open>The error a failed row leaves a multi-row write with: \<^verbatim>\<open>tx.Rollback()\<close> is
  called, and its own error, if any, is formatted around the row's.\<close>

definition rollback :: "driver \<Rightarrow> error \<Rightarrow> error" where
  "rollback drv err =
     (case rollbackErr drv of
        Some txErr \<Rightarrow> ErrorString (Error txErr @ '': rollback caused by '' @ Error err)
      | None \<Rightarrow> err)"

text \<open>The loops over the rows of the three multi-row writes, on the transaction's view
  \<open>tx\<close> of the relation; \<open>i\<close> counts the rows done.\<close>

fun StoreUnresolvedBatchKeys_loop ::
  "driver \<Rightarrow> nat \<Rightarrow> BatchKey list \<Rightarrow> unresolved_row list \<Rightarrow> error + unresolved_row list" where
  "StoreUnresolvedBatchKeys_loop drv i [] tx = Inr tx"
| "StoreUnresolvedBatchKeys_loop drv i (bk # bks) tx =
     (case execErr drv i of
        Some err \<Rightarrow> Inl (rollback drv err)
      | None \<Rightarrow>
          StoreUnresolvedBatchKeys_loop drv (Suc i) bks
            (storeUnresolvedBatchesSQL (Number bk) (Hex (Hash bk)) tx))"

fun DeleteUnresolvedBatchKeys_loop ::
  "driver \<Rightarrow> nat \<Rightarrow> BatchKey list \<Rightarrow> unresolved_row list \<Rightarrow> error + unresolved_row list" where
  "DeleteUnresolvedBatchKeys_loop drv i [] tx = Inr tx"
| "DeleteUnresolvedBatchKeys_loop drv i (bk # bks) tx =
     (case execErr drv i of
        Some err \<Rightarrow> Inl (rollback drv err)
      | None \<Rightarrow>
          DeleteUnresolvedBatchKeys_loop drv (Suc i) bks
            (deleteUnresolvedBatchKeysSQL (Number bk) (Hex (Hash bk)) tx))"

fun StoreOffChainData_loop ::
  "driver \<Rightarrow> nat \<Rightarrow> OffChainData list \<Rightarrow> offchain_row list \<Rightarrow> error + offchain_row list" where
  "StoreOffChainData_loop drv i [] tx = Inr tx"
| "StoreOffChainData_loop drv i (d # od) tx =
     (case execErr drv i of
        Some err \<Rightarrow> Inl (rollback drv err)
      | None \<Rightarrow>
          StoreOffChainData_loop drv (Suc i) od
            (storeOffChainDataSQL (Hex (Key d)) (Bytes2Hex (Value d)) (BatchNum d) tx))"

text \<open>The writes return Go's \<^verbatim>\<open>error\<close> (\<open>None\<close> is \<^verbatim>\<open>nil\<close>) and the database after
  the call: the transaction's view once committed, the database as it was otherwise.\<close>

definition StoreUnresolvedBatchKeys :: "driver \<Rightarrow> BatchKey list \<Rightarrow> pgDB \<Rightarrow> error option \<times> pgDB" where
  "StoreUnresolvedBatchKeys drv bks db =
     (case beginErr drv of
        Some err \<Rightarrow> (Some err, db)
      | None \<Rightarrow>
          (case StoreUnresolvedBatchKeys_loop drv 0 bks (unresolved_batches db) of
             Inl err \<Rightarrow> (Some err, db)
           | Inr tx \<Rightarrow>
               (case commitErr drv of
                  Some err \<Rightarrow> (Some err, db)
                | None \<Rightarrow> (None, db\<lparr>unresolved_batches := tx\<rparr>))))"

definition DeleteUnresolvedBatchKeys :: "driver \<Rightarrow> BatchKey list \<Rightarrow> pgDB \<Rightarrow> error option \<times> pgDB" where
  "DeleteUnresolvedBatchKeys drv bks db =
     (case beginErr drv of
        Some err \<Rightarrow> (Some err, db)
      | None \<Rightarrow>
          (case DeleteUnresolvedBatchKeys_loop drv 0 bks (unresolved_batches db) of
             Inl err \<Rightarrow> (Some err, db)
           | Inr tx \<Rightarrow>
               (case commitErr drv of
                  Some err \<Rightarrow> (Some err, db)
                | None \<Rightarrow> (None, db\<lparr>unresolved_batches := tx\<rparr>))))"

definition StoreOffChainData :: "driver \<Rightarrow> OffChainData list \<Rightarrow> pgDB \<Rightarrow> error option \<times> pgDB" where
  "StoreOffChainData drv od db =
     (case beginErr drv of
        Some err \<Rightarrow> (Some err, db)
      | None \<Rightarrow>
          (case StoreOffChainData_loop drv 0 od (offchain_data db) of
             Inl err \<Rightarrow> (Some err, db)
           | Inr tx \<Rightarrow>
               (case commitErr drv of
                  Some err \<Rightarrow> (Some err, db)
                | None \<Rightarrow> (None, db\<lparr>offchain_data := tx\<rparr>))))"



text \<open>\<^verbatim>\<open>GetOffChainData\<close>: \<^verbatim>\<open>QueryRowxContext(...).StructScan\<close> gives the driver's
  error, \<^verbatim>\<open>sql.ErrNoRows\<close> when the query has no row, or the first row.\<close>

definition QueryRowx_StructScan :: "driver \<Rightarrow> offchain_row list \<Rightarrow> error + offchain_row" where
  "QueryRowx_StructScan drv rows =
     (case queryErr drv of
        Some err \<Rightarrow> Inl err
      | None \<Rightarrow>
          (case rows of
             [] \<Rightarrow> Inl ErrNoRows
           | row # _ \<Rightarrow> (case scanErr drv 0 of Some err \<Rightarrow> Inl err | None \<Rightarrow> Inr row)))"

definition GetOffChainData :: "driver \<Rightarrow> hash \<Rightarrow> pgDB \<Rightarrow> error + OffChainData" where
  "GetOffChainData drv key db =
     (case QueryRowx_StructScan drv (getOffchainDataSQL (Hex key) (offchain_data db)) of
        Inl err \<Rightarrow> (if err = ErrNoRows then Inl ErrStateNotSynchronized else Inl err)
      | Inr data \<Rightarrow>
          Inr \<lparr>Key = HexToHash (fst data),
               Value = FromHex (fst (snd data)),
               BatchNum = snd (snd data)\<rparr>)"

text \<open>\<^verbatim>\<open>ListOffChainData\<close>: the result, and the queries it sent to the server, each as
  the list of its bound arguments.\<close>

fun ListOffChainData_loop ::
  "driver \<Rightarrow> nat \<Rightarrow> offchain_row list \<Rightarrow> OffChainData list \<Rightarrow> error + OffChainData list" where
  "ListOffChainData_loop drv i [] list = Inr list"
| "ListOffChainData_loop drv i (data # rows) list =
     (case scanErr drv i of
        Some err \<Rightarrow> Inl err
      | None \<Rightarrow>
          ListOffChainData_loop drv (Suc i) rows
            (list @ [\<lparr>Key = HexToHash (fst data),
                      Value = FromHex (fst (snd data)),
                      BatchNum = snd (snd data)\<rparr>]))"

definition ListOffChainData ::
  "driver \<Rightarrow> hash list \<Rightarrow> pgDB \<Rightarrow> (error + OffChainData list) \<times> string list list" where
  "ListOffChainData drv keys db =
     (if length keys = 0 then (Inr [], [])
      else
        (let preparedKeys = map Hex keys in
         case inErr drv of
           Some err \<Rightarrow> (Inl err, [])
         | None \<Rightarrow>
             (case queryErr drv of
                Some err \<Rightarrow> (Inl err, [preparedKeys])
              | None \<Rightarrow>
                  (ListOffChainData_loop drv 0
                     (listOffchainDataSQL preparedKeys (offchain_data db)) [],
                   [preparedKeys]))))"

section \<open>The specification's wording\<close>

text \<open>The accumulated input hash as the specification words it. Per batch, the tuple
  \<open>(currentAcc, keccak(payload), l1InfoRootOrForcedGER, timestampOrForcedTimestamp,
  coinbase, forcedBlockHashL1OrZero)\<close>: the forced variant if \<open>forcedTimestamp > 0\<close>, the
  regular variant otherwise.\<close>

definition spec_tuple ::
  "crypto \<Rightarrow> SequenceBanana \<Rightarrow> byte list \<Rightarrow> Batch
     \<Rightarrow> byte list \<times> hash \<times> hash \<times> 64 word \<times> address \<times> hash" where
  "spec_tuple C s currentAcc b =
     (let forced = (ForcedTimestamp b > 0) in
      (currentAcc,
       crypto_Keccak256Hash C (L2Data b),
       (if forced then ForcedGER b else L1InfoRoot s),
       (if forced then ForcedTimestamp b else MaxSequenceTimestamp s),
       Coinbase b,
       (if forced then ForcedBlockHashL1 b else zeroHash)))"

text \<open>The tightly packed encoding of the tuple: 32, 32, 32, 8, 20 and 32 bytes.\<close>

fun spec_encodePacked ::
  "byte list \<times> hash \<times> hash \<times> 64 word \<times> address \<times> hash \<Rightarrow> byte list" where
  "spec_encodePacked (acc, txsHash, root, timestamp, coinbase, blockHash) =
     acc @ Bytes txsHash @ Bytes root @ be64 timestamp @ AddressBytes coinbase @ Bytes blockHash"

text \<open>The old accumulator folded across the batches in order.\<close>

definition spec_accInputHash :: "crypto \<Rightarrow> SequenceBanana \<Rightarrow> byte list" where
  "spec_accInputHash C s =
     foldl (\<lambda>acc b. Bytes (crypto_Keccak256Hash C (spec_encodePacked (spec_tuple C s acc b))))
       (Bytes (OldAccInputHash s)) (Batches s)"

text \<open>The items to persist as the specification words them,
  \<open>{keccak256(payload), payload, batchNumber}\<close> per batch, for batches given with their
  batch numbers.\<close>

definition spec_OffChainData :: "crypto \<Rightarrow> (64 word \<times> Batch) list \<Rightarrow> OffChainData list" where
  "spec_OffChainData C numbered =
     map (\<lambda>(batchNumber, b).
            \<lparr>Key = crypto_Keccak256Hash C (L2Data b), Value = L2Data b, BatchNum = batchNumber\<rparr>)
       numbered"

section \<open>Concrete instances\<close>

text \<open>A small instance of the external primitives, on which the definitions can be
  evaluated. It is neither Keccak nor ECDSA: its digest is the input cropped or padded
  to 32 bytes, its signature is the signer's \<open>X\<close> coordinate in each of the first 64 bytes
  and the recovery id 0 in the last, and its recovery accepts only the ids 0 to 3.\<close>

definition sample_crypto :: crypto where
  "sample_crypto =
     \<lparr>crypto_Keccak256Hash = BytesToHash,
      crypto_Sign = (\<lambda>digest key. Inr (replicate 64 (word_of_int (X (PublicKey key))) @ [0])),
      crypto_SigToPub =
        (\<lambda>digest sig.
           if length sig = 65 \<and> sig ! 64 < 4 then Inr \<lparr>X = uint (sig ! 0), Y = 0\<rparr>
           else Inl (ExternalError ''invalid signature recovery id'')),
      crypto_PubkeyToAddress = (\<lambda>p. Abs_address (replicate 19 0 @ [word_of_int (X p)]))\<rparr>"

text \<open>The same instance with a digest that depends on every byte of its input: the
  sum of the bytes, padded to 32 bytes.\<close>

definition sum_crypto :: crypto where
  "sum_crypto = sample_crypto\<lparr>crypto_Keccak256Hash := (\<lambda>data. BytesToHash [sum_list data])\<rparr>"

text \<open>A connection on which every operation succeeds.\<close>

definition healthy :: driver where
  "healthy =
     \<lparr>beginErr = None, execErr = (\<lambda>_. None), rollbackErr = None, commitErr = None,
      inErr = None, queryErr = None, scanErr = (\<lambda>_. None)\<rparr>"

text \<open>A digest: 30 zero bytes, then \<^verbatim>\<open>ab\<close> and \<^verbatim>\<open>cd\<close>.\<close>

definition sample_hash :: hash where
  "sample_hash = BytesToHash [171, 205]"

text \<open>A batch with a one-byte payload that is not forced, and the sequence of this
  batch alone, with the maximal sequence timestamp 5.\<close>

definition sample_batch :: Batch where
  "sample_batch =
     \<lparr>L2Data = [1], ForcedGER = zeroHash, ForcedTimestamp = 0,
      Coinbase = Abs_address (replicate 20 0), ForcedBlockHashL1 = zeroHash\<rparr>"

definition sample_sequence :: SequenceBanana where
  "sample_sequence =
     \<lparr>Batches = [sample_batch], OldAccInputHash = zeroHash, L1InfoRoot = zeroHash,
      MaxSequenceTimestamp = 5\<rparr>"

text \<open>A key, the wire signature the instance above gives it, in a store that holds
  nothing else, and the sequence signed with it.\<close>

definition sample_key :: ecdsa_PrivateKey where
  "sample_key = \<lparr>PublicKey = \<lparr>X = 5, Y = 0\<rparr>, D = 1\<rparr>"

definition sample_heap :: heap where
  "sample_heap = \<lparr>cells = (\<lambda>_. [])(0 := replicate 64 5 @ [27]), lim = 1\<rparr>"

definition sample_signed :: SignedSequenceBanana where
  "sample_signed = \<lparr>Sequence = sample_sequence, Signature = 0\<rparr>"

section \<open>The accumulated input hash\<close>

text \<open>What \<^verbatim>\<open>HashToSign\<close> hashes per batch: the timestamp's place in the packed tuple
  holds 8 zero bytes, whichever variant is used and whatever the timestamp is.\<close>

lemma HashToSign_step_packed:
  "HashToSign_step C s acc b =
     Bytes (crypto_Keccak256Hash C
       (acc @ Bytes (crypto_Keccak256Hash C (L2Data b))
            @ Bytes (if ForcedTimestamp b > 0 then ForcedGER b else L1InfoRoot s)
            @ replicate 8 0
            @ AddressBytes (Coinbase b)
            @ Bytes (if ForcedTimestamp b > 0 then ForcedBlockHashL1 b else zeroHash)))"
  by (simp add: HashToSign_step_def SoliditySHA3_def crypto_Keccak256_def)

lemma HashToSign_loop_packed:
  "HashToSign_loop C s acc bs =
     foldl (\<lambda>acc b.
              Bytes (crypto_Keccak256Hash C
                (acc @ Bytes (crypto_Keccak256Hash C (L2Data b))
                     @ Bytes (if ForcedTimestamp b > 0 then ForcedGER b else L1InfoRoot s)
                     @ replicate 8 0
                     @ AddressBytes (Coinbase b)
                     @ Bytes (if ForcedTimestamp b > 0 then ForcedBlockHashL1 b else zeroHash))))
       acc bs"
  by (induction bs arbitrary: acc) (simp_all add: HashToSign_step_packed)

text \<open>A timestamp whose 8 big-endian bytes are all zero is zero.\<close>

lemma byte_of_word_zero:
  assumes "ucast (drop_bit j (n :: 64 word)) = (0 :: byte)" and "m < 8"
  shows "\<not> bit n (j + m)"
proof -
  from assms(1) have "bit (ucast (drop_bit j n) :: byte) m = bit (0 :: byte) m"
    by simp
  with assms(2) show ?thesis
    by (simp add: bit_simps)
qed

lemma eight_zeros: "replicate 8 (0 :: byte) = [0, 0, 0, 0, 0, 0, 0, 0]"
  by (simp add: numeral_eq_Suc)

lemma be64_zero_bytes:
  assumes "be64 n = replicate 8 0" and "i < 8"
  shows "ucast (drop_bit (8 * i) n) = (0 :: byte)"
proof -
  from assms(1) have "map (\<lambda>i. ucast (drop_bit (8 * i) n) :: byte) [7, 6, 5, 4, 3, 2, 1, 0]
      = [0, 0, 0, 0, 0, 0, 0, 0]"
    by (simp only: be64_def eight_zeros)
  then have "\<forall>i \<in> set [7, 6, 5, 4, 3, 2, 1, 0 :: nat]. ucast (drop_bit (8 * i) n) = (0 :: byte)"
    by (simp only: list.map list.inject list.set ball_simps insert_iff)
  moreover have "i \<in> set [7, 6, 5, 4, 3, 2, 1, 0 :: nat]"
    using assms(2) by (simp only: list.set insert_iff empty_iff) arith
  ultimately show ?thesis by blast
qed

lemma be64_zero:
  assumes "be64 n = replicate 8 0"
  shows "n = 0"
proof (rule bit_word_eqI)
  fix k
  assume "k < LENGTH(64)"
  then have "k div 8 < 8" "k mod 8 < 8" by simp_all
  then have "\<not> bit n (8 * (k div 8) + k mod 8)"
    using be64_zero_bytes [OF assms] byte_of_word_zero by blast
  then show "bit n k = bit (0 :: 64 word) k" by simp
qed

lemma length_be64: "length (be64 n) = 8"
  by (simp add: be64_def)

lemma Bytes_inj: "Bytes a = Bytes b \<Longrightarrow> a = b"
  by (simp add: Bytes_def Rep_hash_inject)

text \<open>For a sequence of one batch whose timestamp in use is not zero,
  \<^verbatim>\<open>HashToSign\<close> and the specification's accumulated input hash are digests of two
  different byte strings: they agree only if the digest function collides on them.\<close>

lemma HashToSign_one_batch_collision:
  assumes one: "Batches s = [b]"
      and ts: "ForcedTimestamp b > 0 \<or> MaxSequenceTimestamp s \<noteq> 0"
      and eq: "HashToSign C s = spec_accInputHash C s"
  shows "\<exists>x y. x \<noteq> y \<and> crypto_Keccak256Hash C x = crypto_Keccak256Hash C y"
proof -
  let ?t = "if ForcedTimestamp b > 0 then ForcedTimestamp b else MaxSequenceTimestamp s"
  let ?pre = "Bytes (OldAccInputHash s) @ Bytes (crypto_Keccak256Hash C (L2Data b))
            @ Bytes (if ForcedTimestamp b > 0 then ForcedGER b else L1InfoRoot s)"
  let ?post = "AddressBytes (Coinbase b)
            @ Bytes (if ForcedTimestamp b > 0 then ForcedBlockHashL1 b else zeroHash)"
  let ?x = "?pre @ replicate 8 0 @ ?post"
  let ?y = "?pre @ be64 ?t @ ?post"
  from ts have "?t \<noteq> 0" by (auto simp: word_greater_zero_iff)
  then have "be64 ?t \<noteq> replicate 8 0" using be64_zero by blast
  then have ne: "?x \<noteq> ?y" by (simp add: length_be64)
  have code: "HashToSign C s = Bytes (crypto_Keccak256Hash C ?x)"
    by (simp add: HashToSign_def one HashToSign_step_packed)
  have spec: "spec_accInputHash C s = Bytes (crypto_Keccak256Hash C ?y)"
    by (simp add: spec_accInputHash_def one spec_tuple_def)
  have "Bytes (crypto_Keccak256Hash C ?x) = Bytes (crypto_Keccak256Hash C ?y)"
    using eq unfolding code spec .
  then have "crypto_Keccak256Hash C ?x = crypto_Keccak256Hash C ?y"
    by (rule Bytes_inj)
  with ne show ?thesis
    by (intro exI [of _ ?x] exI [of _ ?y] conjI)
qed

lemma sum_list_zeros: "sum_list (replicate n (0 :: byte)) = 0"
  by (induction n) simp_all

lemma Bytes_BytesToHash_single: "Bytes (BytesToHash [x]) = replicate 31 0 @ [x]"
  by (simp add: Bytes_def BytesToHash_def Abs_hash_inverse)

lemma Bytes_zeroHash: "Bytes zeroHash = replicate 32 0"
  by (simp add: Bytes_def zeroHash_def Abs_hash_inverse)

lemma AddressBytes_zero: "AddressBytes (Abs_address (replicate 20 0)) = replicate 20 0"
  by (simp add: AddressBytes_def Abs_address_inverse)

text \<open>Claim C1 says that \<^verbatim>\<open>HashToSign\<close> returns the accumulated input hash: the fold
  from \<^verbatim>\<open>OldAccInputHash\<close> that hashes, per batch, the tightly packed tuple with the
  forced or the regular timestamp in it, as the comment on \<^verbatim>\<open>HashToSign\<close> says of the
  smart contract. The code does not compute it. At the sequence of one regular batch
  with \<^verbatim>\<open>MaxSequenceTimestamp = 5\<close>, under the byte-sum digest, \<^verbatim>\<open>HashToSign\<close> returns
  the digest with last byte 1 (the timestamp contributes nothing) and the specification
  asks for the digest with last byte 6.\<close>

theorem HashToSign_timestamp_divergence:
  "HashToSign sum_crypto sample_sequence = replicate 31 0 @ [1]
   \<and> spec_accInputHash sum_crypto sample_sequence = replicate 31 0 @ [6]
   \<and> HashToSign sum_crypto sample_sequence \<noteq> spec_accInputHash sum_crypto sample_sequence"
proof -
  have code: "HashToSign sum_crypto sample_sequence = replicate 31 0 @ [1]"
    by (simp add: HashToSign_def HashToSign_step_packed sample_sequence_def sample_batch_def
        sum_crypto_def Bytes_BytesToHash_single Bytes_zeroHash AddressBytes_zero sum_list_zeros)
  have spec: "spec_accInputHash sum_crypto sample_sequence = replicate 31 0 @ [6]"
    by (simp add: spec_accInputHash_def spec_tuple_def sample_sequence_def sample_batch_def
        sum_crypto_def Bytes_BytesToHash_single Bytes_zeroHash AddressBytes_zero sum_list_zeros
        be64_def)
  from code spec show ?thesis by simp
qed

text \<open>Claim C10. For a sequence with no batches, \<^verbatim>\<open>HashToSign\<close> returns exactly the
  bytes of \<^verbatim>\<open>OldAccInputHash\<close>.\<close>

theorem HashToSign_no_batches:
  "Batches s = [] \<Longrightarrow> HashToSign C s = Bytes (OldAccInputHash s)"
  by (simp add: HashToSign_def)

theorem HashToSign_no_batches_witness:
  "Batches (sample_sequence\<lparr>Batches := []\<rparr>) = []
   \<and> HashToSign sample_crypto (sample_sequence\<lparr>Batches := []\<rparr>) = Bytes zeroHash"
  using HashToSign_no_batches [of "sample_sequence\<lparr>Batches := []\<rparr>" sample_crypto]
  by (simp add: sample_sequence_def)

section \<open>The items to persist\<close>

lemma OffChainData_loop_map:
  "OffChainData_loop C od bs =
     od @ map (\<lambda>b. \<lparr>Key = crypto_Keccak256Hash C (L2Data b), Value = L2Data b, BatchNum = 0\<rparr>) bs"
  by (induction bs arbitrary: od) simp_all

text \<open>Claim C2, as the specification states it, fails: the item derived from a batch
  does not carry the batch's number. For the sequence of one batch, sequenced as batch
  7, the derived item differs from the specification's.\<close>

theorem OffChainData_batch_number_counterexample:
  "SequenceBanana_OffChainData sample_crypto sample_sequence
     \<noteq> spec_OffChainData sample_crypto [(7, sample_batch)]
   \<and> map BatchNum (SequenceBanana_OffChainData sample_crypto sample_sequence) = [0]
   \<and> map BatchNum (spec_OffChainData sample_crypto [(7, sample_batch)]) = [7]"
  by (simp add: SequenceBanana_OffChainData_def spec_OffChainData_def sample_sequence_def)

text \<open>Claim C2, amended. For every sequence, the derived items are, per batch and in
  order, the key \<open>keccak256(payload)\<close>, the value \<open>payload\<close> and the batch number 0: a
  batch of a sequence has no number, and \<^verbatim>\<open>BatchNum\<close> is left at its zero value.\<close>

theorem OffChainData_items:
  "SequenceBanana_OffChainData C s =
     map (\<lambda>b. \<lparr>Key = crypto_Keccak256Hash C (L2Data b), Value = L2Data b, BatchNum = 0\<rparr>)
       (Batches s)"
  by (simp add: SequenceBanana_OffChainData_def OffChainData_loop_map)

section \<open>Hexadecimal round trips\<close>

lemma hi_nibble: "unat (drop_bit 4 (v :: byte)) < 16"
proof -
  have "unat v < 256" using unsigned_less [of v, where ?'a = nat] by simp
  moreover have "unat (drop_bit 4 v) = unat v div 16"
    by (simp only: unat_drop_bit_eq) (simp add: drop_bit_eq_div)
  ultimately show ?thesis by simp
qed

lemma all_nibbles:
  "(\<forall>n<16. P (n::nat)) \<longleftrightarrow> (\<forall>n \<in> set [0,1,2,3,4,5,6,7,8,9,10,11,12,13,14,15]. P n)"
proof -
  have "{..<16::nat} = set [0,1,2,3,4,5,6,7,8,9,10,11,12,13,14,15]"
    by (auto simp: lessThan_nat_numeral lessThan_Suc)
  then show ?thesis by (metis lessThan_iff)
qed

lemma fromHexChar_hextable: "n < 16 \<Longrightarrow> fromHexChar (hextable ! n) = Some (of_nat n)"
proof -
  have "\<forall>n<16. fromHexChar (hextable ! n) = Some (of_nat n)"
    unfolding all_nibbles by (simp add: fromHexChar_def hextable_def)
  then show "n < 16 \<Longrightarrow> fromHexChar (hextable ! n) = Some (of_nat n)" by blast
qed

lemma hextable_not_x: "n < 16 \<Longrightarrow> hextable ! n \<noteq> CHR ''x'' \<and> hextable ! n \<noteq> CHR ''X''"
proof -
  have "\<forall>n<16. hextable ! n \<noteq> CHR ''x'' \<and> hextable ! n \<noteq> CHR ''X''"
    unfolding all_nibbles by (simp add: hextable_def)
  then show "n < 16 \<Longrightarrow> hextable ! n \<noteq> CHR ''x'' \<and> hextable ! n \<noteq> CHR ''X''" by blast
qed

lemma and_15: "(v :: byte) AND 0x0f = take_bit 4 v"
proof -
  have "(15 :: byte) = mask 4" by (simp add: mask_eq_exp_minus_1)
  then show ?thesis by (simp add: take_bit_eq_mask)
qed

lemma lo_nibble: "unat ((v :: byte) AND 0x0f) < 16"
proof -
  have "unat (take_bit 4 v) = take_bit 4 (unat v)"
    by (simp add: unsigned_take_bit_eq)
  also have "\<dots> < 2 ^ 4"
    by (rule take_bit_nat_less_exp)
  finally show ?thesis
    by (simp add: and_15)
qed

lemma byte_of_nibbles:
  "push_bit 4 (of_nat (unat (drop_bit 4 (v :: byte))) :: byte) OR of_nat (unat (v AND 0x0f)) = v"
  unfolding and_15
  apply simp
  apply (rule bit_word_eqI)
  apply (auto simp: bit_simps)
  done

lemma Hex2Bytes_encode: "Hex2Bytes (hex_EncodeToString bs) = bs"
  by (induction bs)
     (simp_all add: fromHexChar_hextable hi_nibble lo_nibble byte_of_nibbles del: of_nat_unat)

lemma length_encode: "length (hex_EncodeToString bs) = 2 * length bs"
  by (induction bs) simp_all

lemma no_prefix_encode: "\<not> has0xPrefix (hex_EncodeToString bs)"
  by (cases bs) (simp_all add: has0xPrefix_def hextable_not_x lo_nibble)

lemma FromHex_Bytes2Hex: "FromHex (Bytes2Hex v) = v"
  by (simp add: FromHex_def Bytes2Hex_def no_prefix_encode length_encode Hex2Bytes_encode)

lemma length_Bytes: "length (Bytes h) = 32"
  using Rep_hash [of h] by (simp add: Bytes_def)

lemma BytesToHash_Bytes: "BytesToHash (Bytes h) = h"
  by (simp add: BytesToHash_def length_Bytes) (simp add: Bytes_def Rep_hash_inverse)

lemma FromHex_Hex: "FromHex (Hex h) = Bytes h"
  by (simp add: FromHex_def Hex_def has0xPrefix_def length_encode Hex2Bytes_encode)

lemma HexToHash_Hex: "HexToHash (Hex h) = h"
  by (simp add: HexToHash_def FromHex_Hex BytesToHash_Bytes)

lemma encode_append:
  "hex_EncodeToString (xs @ ys) = hex_EncodeToString xs @ hex_EncodeToString ys"
  by (induction xs) simp_all

lemma encode_zeros: "hex_EncodeToString (replicate n 0) = replicate (2 * n) CHR ''0''"
  by (induction n) (simp_all add: hextable_def)

lemma sixty_zeros:
  "replicate 60 CHR ''0'' = ''000000000000000000000000000000000000000000000000000000000000''"
  by (simp add: eval_nat_numeral)

lemma Bytes_sample_hash: "Bytes sample_hash = replicate 30 0 @ [171, 205]"
  by (simp add: Bytes_def sample_hash_def BytesToHash_def Abs_hash_inverse)

lemma Hex_sample_hash:
  "Hex sample_hash = ''0x000000000000000000000000000000000000000000000000000000000000abcd''"
  by (simp add: Hex_def Bytes_sample_hash encode_append encode_zeros sixty_zeros hextable_def)

section \<open>The signer of a signed sequence\<close>

lemma Signer_valid_length:
  assumes "Signature s < lim h" and "length (cells h (Signature s)) = 65"
  shows "fst (Signer C h s) =
           (case crypto_SigToPub C (HashToSign C (Sequence s))
                   ((cells h (Signature s))[64 := cells h (Signature s) ! 64 - 27]) of
              Inl err \<Rightarrow> Inl err
            | Inr pubKey \<Rightarrow> Inr (crypto_PubkeyToAddress C pubKey))"
  using assms
  by (simp add: Signer_def signatureLen_def go_make_def go_copy_def go_sub_at_def Let_def
      split: sum.splits)

lemma Signer_cells:
  "a \<noteq> lim h \<Longrightarrow> cells (snd (Signer C h s)) a = cells h a"
  by (simp add: Signer_def signatureLen_def go_make_def go_copy_def go_sub_at_def Let_def
      split: sum.splits)

lemma nth_snoc_at: "length xs = n \<Longrightarrow> (xs @ [y]) ! n = y"
  by auto

lemma update_snoc_at: "length xs = n \<Longrightarrow> (xs @ [y])[n := v] = xs @ [v]"
  by auto

lemma sample_Sign:
  "SequenceBanana_Sign sample_crypto (Sequence sample_signed) sample_key
     = Inr (cells sample_heap (Signature sample_signed))"
  by (simp add: SequenceBanana_Sign_def Sign_def sample_crypto_def sample_key_def
      sample_heap_def sample_signed_def nth_snoc_at update_snoc_at)

text \<open>Claim C3. For every signed sequence whose \<^verbatim>\<open>Signature\<close> is an allocated slice of
  exactly 65 bytes \<open>(r, s, v)\<close>, \<^verbatim>\<open>Signer\<close> recovers the signing address over
  \<^verbatim>\<open>HashToSign\<close> of the sequence from the signature with \<open>v - 27\<close> as its last byte.
  So for any private key: if the ECDSA primitive signs \<^verbatim>\<open>HashToSign\<close> with the key
  and recovers the key's public key from its own signature, and the signed sequence
  carries what \<^verbatim>\<open>SequenceBanana.Sign\<close> returns for the key, then \<^verbatim>\<open>Signer\<close> yields the
  address of the key.\<close>

theorem Signer_recovers_signer:
  assumes alloc: "Signature s < lim h" and len: "length (cells h (Signature s)) = 65"
  shows "fst (Signer C h s) =
           (case crypto_SigToPub C (HashToSign C (Sequence s))
                   ((cells h (Signature s))[64 := cells h (Signature s) ! 64 - 27]) of
              Inl err \<Rightarrow> Inl err
            | Inr pubKey \<Rightarrow> Inr (crypto_PubkeyToAddress C pubKey))
       \<and> (\<forall>privateKey sig0.
            crypto_Sign C (HashToSign C (Sequence s)) privateKey = Inr sig0
            \<and> crypto_SigToPub C (HashToSign C (Sequence s)) sig0 = Inr (PublicKey privateKey)
            \<and> SequenceBanana_Sign C (Sequence s) privateKey = Inr (cells h (Signature s))
            \<longrightarrow> fst (Signer C h s) = Inr (crypto_PubkeyToAddress C (PublicKey privateKey)))"
proof (intro conjI allI impI)
  show first: "fst (Signer C h s) =
           (case crypto_SigToPub C (HashToSign C (Sequence s))
                   ((cells h (Signature s))[64 := cells h (Signature s) ! 64 - 27]) of
              Inl err \<Rightarrow> Inl err
            | Inr pubKey \<Rightarrow> Inr (crypto_PubkeyToAddress C pubKey))"
    using alloc len by (rule Signer_valid_length)
  fix privateKey sig0
  assume a: "crypto_Sign C (HashToSign C (Sequence s)) privateKey = Inr sig0
            \<and> crypto_SigToPub C (HashToSign C (Sequence s)) sig0 = Inr (PublicKey privateKey)
            \<and> SequenceBanana_Sign C (Sequence s) privateKey = Inr (cells h (Signature s))"
  then have "cells h (Signature s) = sig0[64 := sig0 ! 64 + 27]" and "64 < length sig0"
    by (auto simp: SequenceBanana_Sign_def Sign_def split: if_splits)
  then have "(cells h (Signature s))[64 := cells h (Signature s) ! 64 - 27] = sig0"
    by simp
  with first a show "fst (Signer C h s) = Inr (crypto_PubkeyToAddress C (PublicKey privateKey))"
    by simp
qed

theorem Signer_recovers_signer_witness:
  "Signature sample_signed < lim sample_heap
   \<and> length (cells sample_heap (Signature sample_signed)) = 65
   \<and> SequenceBanana_Sign sample_crypto (Sequence sample_signed) sample_key
       = Inr (cells sample_heap (Signature sample_signed))
   \<and> fst (Signer sample_crypto sample_heap sample_signed)
       = Inr (crypto_PubkeyToAddress sample_crypto (PublicKey sample_key))"
proof -
  have alloc: "Signature sample_signed < lim sample_heap"
    and len: "length (cells sample_heap (Signature sample_signed)) = 65"
    by (simp_all add: sample_signed_def sample_heap_def)
  have prim: "crypto_Sign sample_crypto (HashToSign sample_crypto (Sequence sample_signed)) sample_key
       = Inr (replicate 64 5 @ [0])"
    "crypto_SigToPub sample_crypto (HashToSign sample_crypto (Sequence sample_signed))
         (replicate 64 5 @ [0]) = Inr (PublicKey sample_key)"
    by (simp_all add: sample_crypto_def sample_key_def nth_snoc_at nth_append)
  show ?thesis
    using Signer_recovers_signer [OF alloc len, of sample_crypto] alloc len prim sample_Sign
    by blast
qed

text \<open>Claim C9. \<^verbatim>\<open>Signer\<close> is read-only on its receiver: after the call the array of
  the \<^verbatim>\<open>Signature\<close> slice, and every other array allocated before the call, holds the
  bytes it held before; the \<open>v - 27\<close> adjustment is made on a fresh copy. (The embedded
  \<^verbatim>\<open>Sequence\<close> is only read, by \<^verbatim>\<open>HashToSign\<close>.)\<close>

theorem Signer_leaves_receiver:
  "Signature s < lim h \<Longrightarrow>
     cells (snd (Signer C h s)) (Signature s) = cells h (Signature s)
     \<and> (\<forall>a<lim h. cells (snd (Signer C h s)) a = cells h a)"
  by (simp add: Signer_cells)

theorem Signer_leaves_receiver_witness:
  "Signature sample_signed < lim sample_heap
   \<and> length (cells sample_heap (Signature sample_signed)) = signatureLen
   \<and> cells (snd (Signer sample_crypto sample_heap sample_signed)) (Signature sample_signed)
       = replicate 64 5 @ [27]
   \<and> cells (snd (Signer sample_crypto sample_heap sample_signed)) (lim sample_heap)
       = replicate 64 5 @ [0]"
proof -
  have alloc: "Signature sample_signed < lim sample_heap"
    by (simp add: sample_signed_def sample_heap_def)
  have copy: "cells (snd (Signer sample_crypto sample_heap sample_signed)) (lim sample_heap)
       = replicate 64 5 @ [0]"
    by (simp add: Signer_def signatureLen_def go_make_def go_copy_def go_sub_at_def
        sample_signed_def sample_heap_def nth_snoc_at update_snoc_at Let_def split: sum.splits)
  show ?thesis
    using Signer_leaves_receiver [OF alloc, of sample_crypto] copy
    by (simp add: sample_signed_def sample_heap_def signatureLen_def)
qed

section \<open>Off-chain data in the store\<close>

lemma getOffchainDataSQL_absent:
  "key \<notin> fst ` set t \<Longrightarrow> getOffchainDataSQL key t = []"
  by (induction t) (auto simp: getOffchainDataSQL_def)

lemma getOffchainDataSQL_present:
  "map_of t key = Some vn \<Longrightarrow> getOffchainDataSQL key t = [(key, vn)]"
  by (induction t) (auto simp: getOffchainDataSQL_def)

lemma getOffchainDataSQL_store:
  "getOffchainDataSQL key (storeOffChainDataSQL key val n t) = [(key, val, n)]"
  by (induction t) (auto simp: getOffchainDataSQL_def)

text \<open>Claim C4. On a connection whose query succeeds: for every key absent from the
  \<^verbatim>\<open>offchain_data\<close> table, \<^verbatim>\<open>GetOffChainData\<close> returns \<^verbatim>\<open>ErrStateNotSynchronized\<close> and
  no data; for every key present (and a row that scans), it returns the stored item:
  the key, the stored value decoded from hex, and the stored batch number.\<close>

theorem GetOffChainData_absent_or_present:
  assumes "queryErr drv = None"
  shows "(Hex key \<notin> fst ` set (offchain_data db)
            \<longrightarrow> GetOffChainData drv key db = Inl ErrStateNotSynchronized)
       \<and> (\<forall>val batch_num.
            map_of (offchain_data db) (Hex key) = Some (val, batch_num) \<and> scanErr drv 0 = None
            \<longrightarrow> GetOffChainData drv key db
                  = Inr \<lparr>Key = key, Value = FromHex val, BatchNum = batch_num\<rparr>)"
  using assms
  by (auto simp: GetOffChainData_def QueryRowx_StructScan_def getOffchainDataSQL_absent
      getOffchainDataSQL_present HexToHash_Hex)

theorem GetOffChainData_absent_or_present_witness:
  "GetOffChainData healthy sample_hash \<lparr>offchain_data = [], unresolved_batches = []\<rparr>
     = Inl ErrStateNotSynchronized
   \<and> GetOffChainData healthy sample_hash
       \<lparr>offchain_data =
          [(''0x000000000000000000000000000000000000000000000000000000000000abcd'', ''0a0b'', 7)],
        unresolved_batches = []\<rparr>
     = Inr \<lparr>Key = sample_hash, Value = [10, 11], BatchNum = 7\<rparr>"
proof -
  let ?empty = "\<lparr>offchain_data = [], unresolved_batches = []\<rparr>"
  let ?db = "\<lparr>offchain_data = [(Hex sample_hash, ''0a0b'', 7)], unresolved_batches = []\<rparr>"
  have q: "queryErr healthy = None" and sc: "scanErr healthy 0 = None"
    by (simp_all add: healthy_def)
  have v: "FromHex ''0a0b'' = [10, 11]"
    by (simp add: FromHex_def has0xPrefix_def fromHexChar_def)
  have "GetOffChainData healthy sample_hash ?empty = Inl ErrStateNotSynchronized
      \<and> GetOffChainData healthy sample_hash ?db
          = Inr \<lparr>Key = sample_hash, Value = [10, 11], BatchNum = 7\<rparr>"
    using GetOffChainData_absent_or_present [OF q, of sample_hash ?empty]
          GetOffChainData_absent_or_present [OF q, of sample_hash ?db] sc v
    by simp
  then show ?thesis by (simp only: Hex_sample_hash)
qed

text \<open>Claim C6. The round trip of the store: for every item \<open>d\<close>, after
  \<^verbatim>\<open>StoreOffChainData([d])\<close> succeeds, \<^verbatim>\<open>GetOffChainData(d.Key)\<close> (on a connection whose
  query and scan succeed) returns an item equal to \<open>d\<close>: the hex encodings of the key
  and of the value are inverted exactly on read.\<close>

theorem store_get_roundtrip:
  assumes "StoreOffChainData drv [d] db = (None, db')"
      and "queryErr drv' = None" and "scanErr drv' 0 = None"
  shows "GetOffChainData drv' (Key d) db' = Inr d"
proof -
  from assms(1) have
    "offchain_data db' =
       storeOffChainDataSQL (Hex (Key d)) (Bytes2Hex (Value d)) (BatchNum d) (offchain_data db)"
    by (auto simp: StoreOffChainData_def split: option.splits sum.splits)
  with assms(2,3) show ?thesis
    by (simp add: GetOffChainData_def QueryRowx_StructScan_def getOffchainDataSQL_store
        HexToHash_Hex FromHex_Bytes2Hex)
qed

theorem store_get_roundtrip_witness:
  "StoreOffChainData healthy [\<lparr>Key = sample_hash, Value = [10, 11], BatchNum = 7\<rparr>]
       \<lparr>offchain_data = [], unresolved_batches = []\<rparr>
     = (None,
        \<lparr>offchain_data =
           [(''0x000000000000000000000000000000000000000000000000000000000000abcd'', ''0a0b'', 7)],
         unresolved_batches = []\<rparr>)
   \<and> GetOffChainData healthy sample_hash
       \<lparr>offchain_data =
          [(''0x000000000000000000000000000000000000000000000000000000000000abcd'', ''0a0b'', 7)],
        unresolved_batches = []\<rparr>
     = Inr \<lparr>Key = sample_hash, Value = [10, 11], BatchNum = 7\<rparr>"
proof -
  let ?d = "\<lparr>Key = sample_hash, Value = [10, 11], BatchNum = 7\<rparr>"
  let ?db' = "\<lparr>offchain_data = [(Hex sample_hash, ''0a0b'', 7)], unresolved_batches = []\<rparr>"
  have st: "StoreOffChainData healthy [?d] \<lparr>offchain_data = [], unresolved_batches = []\<rparr>
              = (None, ?db')"
    by (simp add: StoreOffChainData_def healthy_def Bytes2Hex_def hextable_def)
  have q: "queryErr healthy = None" and sc: "scanErr healthy 0 = None"
    by (simp_all add: healthy_def)
  have "StoreOffChainData healthy [?d] \<lparr>offchain_data = [], unresolved_batches = []\<rparr>
          = (None, ?db')
      \<and> GetOffChainData healthy sample_hash ?db' = Inr ?d"
    using store_get_roundtrip [OF st q sc] st by simp
  then show ?thesis by (simp only: Hex_sample_hash)
qed

text \<open>Claim C8. \<^verbatim>\<open>ListOffChainData\<close> of an empty key list returns an empty result and
  no error, whatever the connection and the database are, and sends no query.\<close>

theorem ListOffChainData_no_keys: "ListOffChainData drv [] db = (Inr [], [])"
  by (simp add: ListOffChainData_def)

section \<open>Multi-row writes\<close>

lemma StoreUnresolvedBatchKeys_loop_fails:
  "\<forall>j<k. execErr drv (i + j) = None \<Longrightarrow> execErr drv (i + k) = Some err \<Longrightarrow> k < length bks \<Longrightarrow>
     StoreUnresolvedBatchKeys_loop drv i bks tx = Inl (rollback drv err)"
proof (induction bks arbitrary: i k tx)
  case Nil
  then show ?case by simp
next
  case (Cons bk bks)
  show ?case
  proof (cases k)
    case 0
    with Cons.prems show ?thesis by simp
  next
    case (Suc k')
    with Cons.prems have "execErr drv i = None" by force
    moreover from Suc Cons.prems have "\<forall>j<k'. execErr drv (Suc i + j) = None" by force
    moreover from Suc Cons.prems have "execErr drv (Suc i + k') = Some err" "k' < length bks"
      by simp_all
    ultimately show ?thesis using Cons.IH [of k' "Suc i"] by simp
  qed
qed

lemma DeleteUnresolvedBatchKeys_loop_fails:
  "\<forall>j<k. execErr drv (i + j) = None \<Longrightarrow> execErr drv (i + k) = Some err \<Longrightarrow> k < length bks \<Longrightarrow>
     DeleteUnresolvedBatchKeys_loop drv i bks tx = Inl (rollback drv err)"
proof (induction bks arbitrary: i k tx)
  case Nil
  then show ?case by simp
next
  case (Cons bk bks)
  show ?case
  proof (cases k)
    case 0
    with Cons.prems show ?thesis by simp
  next
    case (Suc k')
    with Cons.prems have "execErr drv i = None" by force
    moreover from Suc Cons.prems have "\<forall>j<k'. execErr drv (Suc i + j) = None" by force
    moreover from Suc Cons.prems have "execErr drv (Suc i + k') = Some err" "k' < length bks"
      by simp_all
    ultimately show ?thesis using Cons.IH [of k' "Suc i"] by simp
  qed
qed

lemma StoreOffChainData_loop_fails:
  "\<forall>j<k. execErr drv (i + j) = None \<Longrightarrow> execErr drv (i + k) = Some err \<Longrightarrow> k < length od \<Longrightarrow>
     StoreOffChainData_loop drv i od tx = Inl (rollback drv err)"
proof (induction od arbitrary: i k tx)
  case Nil
  then show ?case by simp
next
  case (Cons d od)
  show ?case
  proof (cases k)
    case 0
    with Cons.prems show ?thesis by simp
  next
    case (Suc k')
    with Cons.prems have "execErr drv i = None" by force
    moreover from Suc Cons.prems have "\<forall>j<k'. execErr drv (Suc i + j) = None" by force
    moreover from Suc Cons.prems have "execErr drv (Suc i + k') = Some err" "k' < length od"
      by simp_all
    ultimately show ?thesis using Cons.IH [of k' "Suc i"] by simp
  qed
qed

text \<open>Claim C5. For each of the multi-row writes \<^verbatim>\<open>StoreUnresolvedBatchKeys\<close>,
  \<^verbatim>\<open>DeleteUnresolvedBatchKeys\<close> and \<^verbatim>\<open>StoreOffChainData\<close>: when the transaction has
  begun and row \<open>k\<close> is the first whose statement fails, with error \<open>err\<close>, the write is
  rolled back (the database is as before) and the caller gets \<open>err\<close> itself; when the
  rollback fails too, with \<open>txErr\<close>, the caller gets an error whose message is exactly
  \<open>txErr\<close>'s message, then \<^verbatim>\<open>: rollback caused by \<close>, then \<open>err\<close>'s message.\<close>

theorem row_failure_rolls_back:
  assumes "beginErr drv = None"
      and "\<forall>j<k. execErr drv j = None" and "execErr drv k = Some err"
      and "k < length bks" and "k < length bks'" and "k < length od"
  shows "StoreUnresolvedBatchKeys drv bks db =
           (Some (case rollbackErr drv of
                    None \<Rightarrow> err
                  | Some txErr \<Rightarrow> ErrorString (Error txErr @ '': rollback caused by '' @ Error err)),
            db)
       \<and> DeleteUnresolvedBatchKeys drv bks' db =
           (Some (case rollbackErr drv of
                    None \<Rightarrow> err
                  | Some txErr \<Rightarrow> ErrorString (Error txErr @ '': rollback caused by '' @ Error err)),
            db)
       \<and> StoreOffChainData drv od db =
           (Some (case rollbackErr drv of
                    None \<Rightarrow> err
                  | Some txErr \<Rightarrow> ErrorString (Error txErr @ '': rollback caused by '' @ Error err)),
            db)"
proof -
  from assms have
    "StoreUnresolvedBatchKeys_loop drv 0 bks (unresolved_batches db) = Inl (rollback drv err)"
    "DeleteUnresolvedBatchKeys_loop drv 0 bks' (unresolved_batches db) = Inl (rollback drv err)"
    "StoreOffChainData_loop drv 0 od (offchain_data db) = Inl (rollback drv err)"
    using StoreUnresolvedBatchKeys_loop_fails [of k drv 0 err bks]
          DeleteUnresolvedBatchKeys_loop_fails [of k drv 0 err bks']
          StoreOffChainData_loop_fails [of k drv 0 err od]
    by simp_all
  with assms(1) show ?thesis
    by (simp add: StoreUnresolvedBatchKeys_def DeleteUnresolvedBatchKeys_def
        StoreOffChainData_def rollback_def split: option.splits)
qed

theorem row_failure_rolls_back_witness:
  "StoreUnresolvedBatchKeys
     (healthy\<lparr>execErr := (\<lambda>i. if i = 1 then Some (ExternalError ''deadlock detected'') else None)\<rparr>)
     [\<lparr>Number = 1, Hash = sample_hash\<rparr>, \<lparr>Number = 2, Hash = sample_hash\<rparr>]
     \<lparr>offchain_data = [], unresolved_batches = []\<rparr>
   = (Some (ExternalError ''deadlock detected''), \<lparr>offchain_data = [], unresolved_batches = []\<rparr>)
   \<and> DeleteUnresolvedBatchKeys
     (healthy\<lparr>execErr := (\<lambda>i. if i = 1 then Some (ExternalError ''deadlock detected'') else None)\<rparr>)
     [\<lparr>Number = 1, Hash = sample_hash\<rparr>, \<lparr>Number = 2, Hash = sample_hash\<rparr>]
     \<lparr>offchain_data = [], unresolved_batches = []\<rparr>
   = (Some (ExternalError ''deadlock detected''), \<lparr>offchain_data = [], unresolved_batches = []\<rparr>)
   \<and> StoreOffChainData
     (healthy\<lparr>execErr := (\<lambda>i. if i = 1 then Some (ExternalError ''deadlock detected'') else None),
              rollbackErr := Some (ExternalError ''conn closed'')\<rparr>)
     [\<lparr>Key = sample_hash, Value = [], BatchNum = 1\<rparr>, \<lparr>Key = zeroHash, Value = [], BatchNum = 2\<rparr>]
     \<lparr>offchain_data = [], unresolved_batches = []\<rparr>
   = (Some (ErrorString ''conn closed: rollback caused by deadlock detected''),
      \<lparr>offchain_data = [], unresolved_batches = []\<rparr>)"
proof -
  let ?e = "\<lambda>i::nat. if i = 1 then Some (ExternalError ''deadlock detected'') else None"
  let ?d1 = "healthy\<lparr>execErr := ?e\<rparr>"
  let ?d2 = "healthy\<lparr>execErr := ?e, rollbackErr := Some (ExternalError ''conn closed'')\<rparr>"
  let ?bks = "[\<lparr>Number = 1, Hash = sample_hash\<rparr>, \<lparr>Number = 2, Hash = sample_hash\<rparr>]"
  let ?od = "[\<lparr>Key = sample_hash, Value = [], BatchNum = 1\<rparr>,
              \<lparr>Key = zeroHash, Value = [], BatchNum = 2\<rparr>]"
  let ?db = "\<lparr>offchain_data = [], unresolved_batches = []\<rparr>"
  have a: "beginErr ?d1 = None" "\<forall>j<1. execErr ?d1 j = None"
          "execErr ?d1 1 = Some (ExternalError ''deadlock detected'')"
    by (simp_all add: healthy_def)
  have b: "beginErr ?d2 = None" "\<forall>j<1. execErr ?d2 j = None"
          "execErr ?d2 1 = Some (ExternalError ''deadlock detected'')"
    by (simp_all add: healthy_def)
  have l: "1 < length ?bks" "1 < length ?od"
    by simp_all
  show ?thesis
    using row_failure_rolls_back [OF a l(1) l(1) l(2), of ?db]
          row_failure_rolls_back [OF b l(1) l(1) l(2), of ?db]
    by (simp add: healthy_def)
qed

section \<open>Unresolved batch keys\<close>











end
